theory Spec2Isabelle
  imports Main "HOL-Library.Word"
begin

section \<open>cvec2: a generic vector with a movable start offset\<close>

text \<open>
  A shallow embedding of \<^verbatim>\<open>cvec2.c\<close> and of the macros of \<^verbatim>\<open>cvec2.h\<close> it uses.
  The machine model is LP64: \<^verbatim>\<open>size_t\<close> is a 64-bit word, \<^verbatim>\<open>unsigned int\<close> a 32-bit word,
  and word arithmetic wraps as C's unsigned arithmetic does. The vector is an untyped engine
  over bytes: its heap block is a list of bytes, and every offset is a byte count computed
  from an element index and the element size the caller passes at each call.

  Every function takes the vector itself, so the pointer to it is never null. Buffers of
  the caller (the values to insert or assign, the destination of a removal) are byte
  lists of their own and do not overlap the vector's block.
\<close>

type_synonym size_t = "64 word"
type_synonym uint = "32 word"
type_synonym byte = "8 word"

subsection \<open>Pointers into the vector's heap block\<close>

text \<open>
  The vector owns at most one heap block. A pointer is \<open>NULL\<close> or an address inside that
  block, written as the byte offset from the block's base. Pointer arithmetic that leaves
  the block downwards, and every access outside the block, is undefined behaviour in C;
  the model gives \<open>None\<close> there.
\<close>

datatype ptr = NULL | Ptr nat

record vec2 =
  vec2_size :: size_t
  vec2_capacity :: size_t
  vec2_idx :: size_t
  vec2_start :: size_t
  vec2_data :: ptr
  heap :: "byte list"

text \<open>
  The outcome of a call: it returns \<open>TRUE\<close> or \<open>FALSE\<close> and leaves a state behind, or it
  runs into undefined behaviour, or it never returns.
\<close>

datatype 's outcome = Return bool 's | Undefined | Nonterminating

definition ptr_add :: "ptr \<Rightarrow> nat \<Rightarrow> ptr option" where
  "ptr_add p n = (case p of NULL \<Rightarrow> None | Ptr a \<Rightarrow> Some (Ptr (a + n)))"

definition ptr_sub :: "ptr \<Rightarrow> nat \<Rightarrow> ptr option" where
  "ptr_sub p n = (case p of NULL \<Rightarrow> None | Ptr a \<Rightarrow> if n \<le> a then Some (Ptr (a - n)) else None)"

text \<open>\<^verbatim>\<open>memmove(dst, src, n)\<close> inside the heap block.\<close>

definition memmove_heap :: "byte list \<Rightarrow> ptr option \<Rightarrow> ptr option \<Rightarrow> nat \<Rightarrow> byte list option" where
  "memmove_heap h dst src n =
     (case (dst, src) of
        (Some (Ptr d), Some (Ptr s)) \<Rightarrow>
          if d + n \<le> length h \<and> s + n \<le> length h
          then Some (take d h @ take n (drop s h) @ drop (d + n) h)
          else None
      | _ \<Rightarrow> None)"

text \<open>
  \<^verbatim>\<open>memcpy(dst, src, n)\<close> inside the heap block: as \<^verbatim>\<open>memmove\<close>, and undefined when the two
  ranges overlap.
\<close>

definition memcpy_heap :: "byte list \<Rightarrow> ptr option \<Rightarrow> ptr option \<Rightarrow> nat \<Rightarrow> byte list option" where
  "memcpy_heap h dst src n =
     (case (dst, src) of
        (Some (Ptr d), Some (Ptr s)) \<Rightarrow>
          if d + n \<le> length h \<and> s + n \<le> length h \<and> (n = 0 \<or> d + n \<le> s \<or> s + n \<le> d)
          then Some (take d h @ take n (drop s h) @ drop (d + n) h)
          else None
      | _ \<Rightarrow> None)"

text \<open>
  \<^verbatim>\<open>memcpy\<close>/\<^verbatim>\<open>memmove\<close> of \<open>n\<close> bytes from a buffer of the caller (\<open>None\<close> is a null
  pointer, \<open>Some b\<close> a buffer holding the bytes \<open>b\<close>) into the heap block.
\<close>

definition store_heap :: "byte list \<Rightarrow> ptr option \<Rightarrow> byte list option \<Rightarrow> nat \<Rightarrow> byte list option" where
  "store_heap h dst val n =
     (case (dst, val) of
        (Some (Ptr d), Some b) \<Rightarrow>
          if d + n \<le> length h \<and> n \<le> length b
          then Some (take d h @ take n b @ drop (d + n) h)
          else None
      | _ \<Rightarrow> None)"

text \<open>\<^verbatim>\<open>memcpy\<close> of \<open>n\<close> bytes from the heap block into a buffer of the caller.\<close>

definition load_heap :: "byte list \<Rightarrow> ptr option \<Rightarrow> byte list \<Rightarrow> nat \<Rightarrow> byte list option" where
  "load_heap h src b n =
     (case src of
        Some (Ptr s) \<Rightarrow>
          if s + n \<le> length h \<and> n \<le> length b
          then Some (take n (drop s h) @ drop n b)
          else None
      | _ \<Rightarrow> None)"

subsection \<open>The allocator\<close>

text \<open>
  \<^verbatim>\<open>realloc\<close> belongs to the C library and is a parameter of the model: asked for \<open>n\<close>
  bytes it answers \<open>None\<close> (a null result, the old block untouched) or \<open>Some junk\<close>, and
  then the new block holds the old bytes up to the smaller of the two sizes and the
  indeterminate byte \<open>junk i\<close> at every further offset \<open>i\<close>. Only \<open>NULL\<close> and the base of
  the block may be passed to \<^verbatim>\<open>realloc\<close> and \<^verbatim>\<open>free\<close>.
\<close>

type_synonym allocator = "nat \<Rightarrow> (nat \<Rightarrow> byte) option"

datatype alloc_result = Alloc_undefined | Alloc_null | Alloc_ok "byte list"

definition realloc_heap :: "allocator \<Rightarrow> ptr option \<Rightarrow> byte list \<Rightarrow> nat \<Rightarrow> alloc_result" where
  "realloc_heap a p h n =
     (case p of
        Some NULL \<Rightarrow>
          (case a n of None \<Rightarrow> Alloc_null | Some junk \<Rightarrow> Alloc_ok (map junk [0..<n]))
      | Some (Ptr 0) \<Rightarrow>
          (case a n of None \<Rightarrow> Alloc_null
           | Some junk \<Rightarrow> Alloc_ok (take n h @ map junk [length h..<n]))
      | _ \<Rightarrow> Alloc_undefined)"

subsection \<open>Macros\<close>

definition VEC2_INITIAL_CAPACITY :: size_t where
  "VEC2_INITIAL_CAPACITY = 8"

definition VEC2_SWAP_SIZE :: size_t where
  "VEC2_SWAP_SIZE = 24"

definition VEC2_GET :: "vec2 \<Rightarrow> size_t \<Rightarrow> size_t \<Rightarrow> ptr option" where
  "VEC2_GET v el_size idx = ptr_add (vec2_data v) (unat (idx * el_size))"

text \<open>
  \<^verbatim>\<open>vec2_mem\<close>, the base of the block: \<^verbatim>\<open>data - start * el_size\<close>. A null \<^verbatim>\<open>data\<close> with a
  zero offset stays null (the first allocation passes it to \<^verbatim>\<open>realloc\<close>).
\<close>

definition vec2_mem :: "vec2 \<Rightarrow> size_t \<Rightarrow> ptr option" where
  "vec2_mem v el_size =
     (case vec2_data v of
        NULL \<Rightarrow> if vec2_start v * el_size = 0 then Some NULL else None
      | Ptr a \<Rightarrow> ptr_sub (Ptr a) (unat (vec2_start v * el_size)))"

definition vec2_impl_valid :: "vec2 \<Rightarrow> bool" where
  "vec2_impl_valid v \<longleftrightarrow>
     (vec2_capacity v = 0 \<and> vec2_data v = NULL) \<or> vec2_size v \<le> vec2_capacity v"

subsection \<open>The capacity manager\<close>

definition vec2_reserve :: "allocator \<Rightarrow> vec2 \<Rightarrow> size_t \<Rightarrow> size_t \<Rightarrow> vec2 outcome" where
  "vec2_reserve a v additional el_size =
     (if additional > vec2_capacity v - vec2_size v then
        let new_capacity = vec2_capacity v + additional in
        if new_capacity < vec2_capacity v then Return False v
        else
          let alloc_size = new_capacity * el_size in
          if el_size = 0 then Undefined
          else if alloc_size div el_size \<noteq> new_capacity then Return False v
          else
            (case realloc_heap a (vec2_mem v el_size) (heap v) (unat alloc_size) of
               Alloc_undefined \<Rightarrow> Undefined
             | Alloc_null \<Rightarrow> Return False v
             | Alloc_ok h \<Rightarrow>
                 Return True
                   (v\<lparr>vec2_data := Ptr (unat (el_size * vec2_start v)),
                      vec2_capacity := new_capacity,
                      heap := h\<rparr>))
      else Return True v)"

definition vec2_impl_reserve :: "allocator \<Rightarrow> vec2 \<Rightarrow> size_t \<Rightarrow> size_t \<Rightarrow> vec2 outcome" where
  "vec2_impl_reserve a v additional el_size =
     (if \<not> vec2_impl_valid v \<or> el_size = 0 then Return False v
      else vec2_reserve a v additional el_size)"


definition vec2_clear :: "vec2 \<Rightarrow> size_t \<Rightarrow> vec2 outcome" where
  "vec2_clear v el_size =
     (if vec2_data v \<noteq> NULL \<and> vec2_mem v el_size \<noteq> Some (Ptr 0) then Undefined
      else
        Return True
          \<lparr>vec2_size = 0, vec2_capacity = 0, vec2_idx = 0, vec2_start = 0,
           vec2_data = NULL, heap = []\<rparr>)"

definition vec2_impl_init :: "vec2 \<Rightarrow> vec2 outcome" where
  "vec2_impl_init v =
     Return True
       \<lparr>vec2_size = 0, vec2_capacity = 0, vec2_idx = 0, vec2_start = 0,
        vec2_data = NULL, heap = []\<rparr>"

definition VEC2_INITIALIZER :: vec2 where
  "VEC2_INITIALIZER =
     \<lparr>vec2_size = 0, vec2_capacity = 0, vec2_idx = 0, vec2_start = 0,
      vec2_data = NULL, heap = []\<rparr>"

definition vec2_impl_shrink :: "allocator \<Rightarrow> vec2 \<Rightarrow> size_t \<Rightarrow> vec2 outcome" where
  "vec2_impl_shrink a v el_size =
     (if \<not> vec2_impl_valid v \<or> el_size = 0 then Return False v
      else if vec2_size v = 0 then vec2_clear v el_size
      else if vec2_size v < vec2_capacity v \<and> vec2_capacity v > VEC2_INITIAL_CAPACITY then
        let new_capacity =
              (if vec2_size v > VEC2_INITIAL_CAPACITY then vec2_size v
               else VEC2_INITIAL_CAPACITY);
            compacted =
              (if vec2_start v > 0 then
                 (case memmove_heap (heap v) (vec2_mem v el_size) (Some (vec2_data v))
                         (unat (el_size * vec2_size v)) of
                    None \<Rightarrow> None
                  | Some h \<Rightarrow>
                      (case vec2_mem v el_size of
                         None \<Rightarrow> None
                       | Some m \<Rightarrow> Some (v\<lparr>vec2_data := m, vec2_start := 0, heap := h\<rparr>)))
               else Some v)
        in
          (case compacted of
             None \<Rightarrow> Undefined
           | Some v1 \<Rightarrow>
               (case realloc_heap a (Some (vec2_data v1)) (heap v1)
                       (unat (new_capacity * el_size)) of
                  Alloc_undefined \<Rightarrow> Undefined
                | Alloc_null \<Rightarrow> Return False v1
                | Alloc_ok h \<Rightarrow>
                    Return True
                      (v1\<lparr>vec2_data := Ptr 0, vec2_capacity := vec2_size v1, heap := h\<rparr>)))
      else Return True v)"

subsection \<open>The hole algorithm\<close>

text \<open>
  The first loop of \<^verbatim>\<open>_vec2_create_hole\<close> grows \<^verbatim>\<open>addition\<close>, an \<^verbatim>\<open>unsigned int\<close>, until it
  reaches \<^verbatim>\<open>len\<close>. The sum \<^verbatim>\<open>(addition << 1) + (addition >> 1)\<close> is computed in 32 bits and
  then widened. The loop need not end, so its model answers \<open>None\<close> when it runs forever.
\<close>

partial_function (option) grow_addition :: "uint \<Rightarrow> size_t \<Rightarrow> uint option" where
  "grow_addition addition len =
     (if (ucast addition :: size_t) < len then
        let next_addition = (ucast (push_bit 1 addition + drop_bit 1 addition) :: size_t) in
        if next_addition < ucast addition then Some (ucast len)
        else grow_addition (ucast next_addition) len
      else Some addition)"

declare grow_addition.simps [code]

text \<open>
  The second loop retries \<^verbatim>\<open>_vec2_reserve\<close> with a smaller \<^verbatim>\<open>addition\<close> each time it
  fails.
\<close>

function reserve_retry :: "allocator \<Rightarrow> vec2 \<Rightarrow> uint \<Rightarrow> size_t \<Rightarrow> size_t \<Rightarrow> vec2 outcome" where
  "reserve_retry a v addition len el_size =
     (case vec2_reserve a v (ucast addition) el_size of
        Return ok v' \<Rightarrow>
          if ok then Return True v'
          else if (ucast addition :: size_t) > len \<and> (ucast (drop_bit 1 addition) :: size_t) < len
          then reserve_retry a v' (ucast len) len el_size
          else if (ucast (drop_bit 1 addition) :: size_t) < len then Return False v'
          else reserve_retry a v' (drop_bit 1 addition) len el_size
      | Undefined \<Rightarrow> Undefined
      | Nonterminating \<Rightarrow> Nonterminating)"
  by pat_completeness auto

termination reserve_retry
proof (relation "measure (\<lambda>(a, v, addition, len, el_size). unat addition)", goal_cases)
  case 1
  show ?case by simp
next
  case (2 a v addition len el_size ok v')
  then have "len < ucast addition" by simp
  then have "unat len < take_bit 64 (unat addition)"
    by (simp add: word_less_nat_alt unsigned_ucast_eq)
  then have "unat len < unat addition"
    by (rule less_le_trans) (rule take_bit_nat_less_eq_self)
  moreover have "unat len mod 2 ^ 32 \<le> unat len" by (rule mod_less_eq_dividend)
  ultimately have "unat (ucast len :: uint) < unat addition"
    by (simp add: unsigned_ucast_eq take_bit_eq_mod del: mod_less_eq_dividend)
  then show ?case by simp
next
  case (3 a v addition len el_size ok v')
  then have "vec2_reserve a v (ucast addition) el_size = Return False v'" by simp
  then have "(ucast addition :: size_t) \<noteq> 0"
    by (auto simp: vec2_reserve_def Let_def word_gt_0 split: if_splits alloc_result.splits)
  then have "addition \<noteq> 0" by auto
  then have "0 < unat addition" by (simp add: unat_gt_0)
  then have "unat (drop_bit 1 addition) < unat addition"
    by (simp add: drop_bit_eq_div unat_div)
  then show ?case by simp
qed

declare reserve_retry.simps [simp del]

text \<open>
  The part of \<^verbatim>\<open>_vec2_create_hole\<close> that makes room in the block: when
  \<^verbatim>\<open>size + len > capacity\<close> it picks \<^verbatim>\<open>addition\<close> and reserves.
\<close>

definition vec2_create_hole_reserve :: "allocator \<Rightarrow> vec2 \<Rightarrow> size_t \<Rightarrow> size_t \<Rightarrow> vec2 outcome" where
  "vec2_create_hole_reserve a v len el_size =
     (if vec2_size v + len > vec2_capacity v then
        (case grow_addition
                (ucast (if vec2_capacity v \<noteq> 0 then drop_bit 1 (vec2_capacity v)
                        else VEC2_INITIAL_CAPACITY)) len of
           None \<Rightarrow> Nonterminating
         | Some addition \<Rightarrow> reserve_retry a v addition len el_size)
      else Return True v)"

text \<open>
  The part of \<^verbatim>\<open>_vec2_create_hole\<close> that places the hole: the block guarded by
  \<^verbatim>\<open>vec2_size(vec_ptr) > 0\<close>.
\<close>

definition vec2_create_hole_place :: "vec2 \<Rightarrow> size_t \<Rightarrow> size_t \<Rightarrow> size_t \<Rightarrow> vec2 outcome" where
  "vec2_create_hole_place v idx len el_size =
     (if vec2_size v > 0 then
        if idx = 0 \<and> vec2_start v \<ge> len then
          (case ptr_sub (vec2_data v) (unat (len * el_size)) of
             None \<Rightarrow> Undefined
           | Some p \<Rightarrow> Return True (v\<lparr>vec2_start := vec2_start v - len, vec2_data := p\<rparr>))
        else if idx < vec2_size v \<or> len > vec2_capacity v - (vec2_start v + vec2_size v) then
          let shift_back =
                (if idx = vec2_size v \<or> len > vec2_start v then vec2_start v else len)
          in
            (case ptr_sub (vec2_data v) (unat (shift_back * el_size)) of
               None \<Rightarrow> Undefined
             | Some p \<Rightarrow>
                 let v1 = v\<lparr>vec2_start := vec2_start v - shift_back, vec2_data := p\<rparr> in
                 (case memmove_heap (heap v1) (Some (vec2_data v1))
                         (VEC2_GET v1 el_size shift_back) (unat (idx * el_size)) of
                    None \<Rightarrow> Undefined
                  | Some h1 \<Rightarrow>
                      let v2 = v1\<lparr>heap := h1\<rparr> in
                      if idx < vec2_size v2 \<and> len > shift_back then
                        (case memmove_heap (heap v2) (VEC2_GET v2 el_size (idx + len))
                                (VEC2_GET v2 el_size (idx + shift_back))
                                (unat ((len - shift_back) * el_size)) of
                           None \<Rightarrow> Undefined
                         | Some h2 \<Rightarrow> Return True (v2\<lparr>heap := h2\<rparr>))
                      else Return True v2))
        else Return True v
      else Return True v)"

definition vec2_create_hole :: "allocator \<Rightarrow> vec2 \<Rightarrow> size_t \<Rightarrow> size_t \<Rightarrow> size_t \<Rightarrow> vec2 outcome" where
  "vec2_create_hole a v idx len el_size =
     (if len \<le> 0 \<or> idx > vec2_size v \<or> vec2_size v + len < vec2_size v then Return False v
      else
        (case vec2_create_hole_reserve a v len el_size of
           Return ok v1 \<Rightarrow>
             if ok then vec2_create_hole_place v1 idx len el_size else Return False v1
         | Undefined \<Rightarrow> Undefined
         | Nonterminating \<Rightarrow> Nonterminating))"

definition vec2_impl_create_hole :: "allocator \<Rightarrow> vec2 \<Rightarrow> size_t \<Rightarrow> size_t \<Rightarrow> size_t \<Rightarrow> vec2 outcome" where
  "vec2_impl_create_hole a v idx len el_size =
     (if \<not> vec2_impl_valid v \<or> len \<le> 0 \<or> el_size = 0 then Return False v
      else
        (case vec2_create_hole a v idx len el_size of
           Return ok v1 \<Rightarrow> if ok then Return True (v1\<lparr>vec2_idx := idx\<rparr>) else Return False v1
         | Undefined \<Rightarrow> Undefined
         | Nonterminating \<Rightarrow> Nonterminating))"

definition vec2_impl_insert :: "allocator \<Rightarrow> vec2 \<Rightarrow> size_t \<Rightarrow> byte list option \<Rightarrow> size_t \<Rightarrow> size_t \<Rightarrow> vec2 outcome" where
  "vec2_impl_insert a v idx val len el_size =
     (if \<not> vec2_impl_valid v \<or> val = None \<or> el_size = 0 then Return False v
      else if len > 0 then
        (case vec2_create_hole a v idx len el_size of
           Return ok v1 \<Rightarrow>
             if \<not> ok then Return False v1
             else
               (case store_heap (heap v1) (VEC2_GET v1 el_size idx) val (unat (el_size * len)) of
                  None \<Rightarrow> Undefined
                | Some h \<Rightarrow> Return True (v1\<lparr>heap := h, vec2_size := vec2_size v1 + len\<rparr>))
         | Undefined \<Rightarrow> Undefined
         | Nonterminating \<Rightarrow> Nonterminating)
      else Return True v)"

subsection \<open>Removal\<close>

text \<open>
  The optional destination \<^verbatim>\<open>opt_out_val\<close> is a buffer of the caller: \<open>None\<close> for a null
  pointer, \<open>Some b\<close> for a buffer holding \<open>b\<close>. The call gives it back as it leaves it.
\<close>

definition vec2_remove :: "vec2 \<Rightarrow> size_t \<Rightarrow> size_t \<Rightarrow> size_t \<Rightarrow> byte list option \<Rightarrow> (vec2 \<times> byte list option) outcome" where
  "vec2_remove v idx len el_size opt_out_val =
     (if len > vec2_size v \<or> vec2_size v - len < idx then Return False (v, opt_out_val)
      else if len \<noteq> 0 then
        (case (case opt_out_val of
                 None \<Rightarrow> Some None
               | Some b \<Rightarrow>
                   map_option Some
                     (load_heap (heap v) (VEC2_GET v el_size idx) b (unat (len * el_size)))) of
           None \<Rightarrow> Undefined
         | Some out \<Rightarrow>
             let v1 = v\<lparr>vec2_size := vec2_size v - len\<rparr> in
             if vec2_size v1 \<noteq> 0 then
               if idx = 0 then
                 (case ptr_add (vec2_data v1) (unat (len * el_size)) of
                    None \<Rightarrow> Undefined
                  | Some p \<Rightarrow>
                      Return True (v1\<lparr>vec2_start := vec2_start v1 + len, vec2_data := p\<rparr>, out))
               else if idx < vec2_size v1 then
                 (case memmove_heap (heap v1) (VEC2_GET v1 el_size idx)
                         (VEC2_GET v1 el_size (idx + len))
                         (unat ((vec2_size v1 - idx) * el_size)) of
                    None \<Rightarrow> Undefined
                  | Some h \<Rightarrow> Return True (v1\<lparr>heap := h\<rparr>, out))
               else Return True (v1, out)
             else Return True (v1, out))
      else Return True (v, opt_out_val))"

definition vec2_impl_remove :: "vec2 \<Rightarrow> size_t \<Rightarrow> size_t \<Rightarrow> size_t \<Rightarrow> byte list option \<Rightarrow> (vec2 \<times> byte list option) outcome" where
  "vec2_impl_remove v idx len el_size out =
     (if \<not> vec2_impl_valid v \<or> el_size = 0 then Return False (v, out)
      else vec2_remove v idx len el_size out)"

text \<open>\<^verbatim>\<open>_vec2_impl_clear\<close> returns nothing; the model returns \<open>True\<close> for it.\<close>

definition vec2_impl_clear :: "vec2 \<Rightarrow> size_t \<Rightarrow> vec2 outcome" where
  "vec2_impl_clear v el_size =
     (if vec2_impl_valid v then vec2_clear v el_size else Return True v)"

subsection \<open>Element operations\<close>

text \<open>
  One exchange of \<open>n\<close> bytes through the scratch buffer \<^verbatim>\<open>swap.bytes\<close>: three
  \<^verbatim>\<open>memcpy\<close> calls. The scratch buffer has \<^verbatim>\<open>sizeof(swap)\<close> bytes, which is
  \<^verbatim>\<open>VEC2_SWAP_SIZE\<close> on LP64.
\<close>

definition swap_chunk :: "byte list \<Rightarrow> ptr option \<Rightarrow> ptr option \<Rightarrow> nat \<Rightarrow> byte list option" where
  "swap_chunk h first second n =
     (case load_heap h first (replicate (unat VEC2_SWAP_SIZE) 0) n of
        None \<Rightarrow> None
      | Some swap_bytes \<Rightarrow>
          (case memcpy_heap h first second n of
             None \<Rightarrow> None
           | Some h1 \<Rightarrow> store_heap h1 second (Some swap_bytes) n))"

function swap_loop :: "byte list \<Rightarrow> ptr option \<Rightarrow> ptr option \<Rightarrow> size_t \<Rightarrow> (byte list \<times> size_t) option" where
  "swap_loop h first second left_bytes =
     (if left_bytes \<ge> VEC2_SWAP_SIZE then
        (case swap_chunk h first second (unat VEC2_SWAP_SIZE) of
           None \<Rightarrow> None
         | Some h1 \<Rightarrow> swap_loop h1 first second (left_bytes - VEC2_SWAP_SIZE))
      else Some (h, left_bytes))"
  by pat_completeness auto
termination
proof (relation "measure (\<lambda>(h, first, second, left_bytes). unat left_bytes)", goal_cases)
  case 1
  show ?case by simp
next
  case (2 h first second left_bytes h1)
  then have "VEC2_SWAP_SIZE \<le> left_bytes" by simp
  then have "unat (left_bytes - VEC2_SWAP_SIZE) = unat left_bytes - unat VEC2_SWAP_SIZE"
    by (rule unat_sub)
  moreover have "unat VEC2_SWAP_SIZE \<le> unat left_bytes"
    using \<open>VEC2_SWAP_SIZE \<le> left_bytes\<close> by (simp add: word_le_nat_alt)
  moreover have "0 < unat VEC2_SWAP_SIZE" by (simp add: VEC2_SWAP_SIZE_def)
  ultimately show ?case by simp
qed

declare swap_loop.simps [simp del]

definition vec2_impl_swap :: "vec2 \<Rightarrow> size_t \<Rightarrow> size_t \<Rightarrow> size_t \<Rightarrow> vec2 outcome" where
  "vec2_impl_swap v first second el_size =
     (if \<not> vec2_impl_valid v \<or> first \<ge> vec2_size v \<or> second \<ge> vec2_size v \<or> el_size = 0
      then Return False v
      else if first \<noteq> second then
        (case swap_loop (heap v) (VEC2_GET v el_size first) (VEC2_GET v el_size second) el_size of
           None \<Rightarrow> Undefined
         | Some (h1, left_bytes) \<Rightarrow>
             if left_bytes \<noteq> 0 then
               (case swap_chunk h1 (VEC2_GET v el_size first) (VEC2_GET v el_size second)
                       (unat left_bytes) of
                  None \<Rightarrow> Undefined
                | Some h2 \<Rightarrow> Return True (v\<lparr>heap := h2\<rparr>))
             else Return True (v\<lparr>heap := h1\<rparr>))
      else Return True v)"

text \<open>
  \<^verbatim>\<open>qsort\<close> belongs to the C library and is a parameter of the model: from the bytes of the
  \<open>nmemb\<close> elements of \<open>size\<close> bytes each and the comparison function it gives the bytes it
  leaves there. A null comparison function is \<open>None\<close>.
\<close>

type_synonym cmpfn = "byte list \<Rightarrow> byte list \<Rightarrow> int"
type_synonym qsort_fn = "byte list \<Rightarrow> nat \<Rightarrow> nat \<Rightarrow> cmpfn \<Rightarrow> byte list"

definition vec2_impl_sort :: "qsort_fn \<Rightarrow> vec2 \<Rightarrow> cmpfn option \<Rightarrow> size_t \<Rightarrow> vec2 outcome" where
  "vec2_impl_sort qsort v cmpfn el_size =
     (case cmpfn of
        None \<Rightarrow> Return False v
      | Some cmp \<Rightarrow>
          if \<not> vec2_impl_valid v \<or> el_size = 0 then Return False v
          else if vec2_size v \<noteq> 0 then
            (case VEC2_GET v el_size 0 of
               Some (Ptr p) \<Rightarrow>
                 let n = unat (vec2_size v) * unat el_size;
                     sorted_bytes = qsort (take n (drop p (heap v))) (unat (vec2_size v)) (unat el_size) cmp
                 in
                   if p + n \<le> length (heap v) \<and> length sorted_bytes = n
                   then Return True (v\<lparr>heap := take p (heap v) @ sorted_bytes @ drop (p + n) (heap v)\<rparr>)
                   else Undefined
             | _ \<Rightarrow> Undefined)
          else Return True v)"

definition vec2_impl_assign :: "vec2 \<Rightarrow> size_t \<Rightarrow> byte list option \<Rightarrow> size_t \<Rightarrow> size_t \<Rightarrow> vec2 outcome" where
  "vec2_impl_assign v idx val len el_size =
     (if \<not> vec2_impl_valid v \<or> val = None \<or> el_size = 0 \<or> idx \<ge> vec2_size v \<or>
         vec2_size v - idx < len
      then Return False v
      else
        (case store_heap (heap v) (VEC2_GET v el_size idx) val (unat (len * el_size)) of
           None \<Rightarrow> Undefined
         | Some h \<Rightarrow> Return True (v\<lparr>heap := h\<rparr>)))"

subsection \<open>Sequences of calls\<close>

datatype op =
    Op_init
  | Op_reserve size_t
  | Op_shrink
  | Op_create_hole size_t size_t
  | Op_insert size_t "byte list option" size_t
  | Op_remove size_t size_t "byte list option"
  | Op_swap size_t size_t
  | Op_sort "cmpfn option"
  | Op_assign size_t "byte list option" size_t
  | Op_clear

definition drop_out :: "(vec2 \<times> byte list option) outcome \<Rightarrow> vec2 outcome" where
  "drop_out r = (case r of Return ok (v, out) \<Rightarrow> Return ok v | Undefined \<Rightarrow> Undefined
                 | Nonterminating \<Rightarrow> Nonterminating)"

fun step :: "allocator \<Rightarrow> qsort_fn \<Rightarrow> size_t \<Rightarrow> vec2 \<Rightarrow> op \<Rightarrow> vec2 outcome" where
  "step a q el_size v Op_init = vec2_impl_init v"
| "step a q el_size v (Op_reserve additional) = vec2_impl_reserve a v additional el_size"
| "step a q el_size v Op_shrink = vec2_impl_shrink a v el_size"
| "step a q el_size v (Op_create_hole idx len) = vec2_impl_create_hole a v idx len el_size"
| "step a q el_size v (Op_insert idx val len) = vec2_impl_insert a v idx val len el_size"
| "step a q el_size v (Op_remove idx len out) = drop_out (vec2_impl_remove v idx len el_size out)"
| "step a q el_size v (Op_swap first second) = vec2_impl_swap v first second el_size"
| "step a q el_size v (Op_sort cmpfn) = vec2_impl_sort q v cmpfn el_size"
| "step a q el_size v (Op_assign idx val len) = vec2_impl_assign v idx val len el_size"
| "step a q el_size v Op_clear = vec2_impl_clear v el_size"

text \<open>
  A sequence of calls on one vector: each call starts from the state the call before it
  left, whatever it returned; the outcome is that of the last call.
\<close>

fun run :: "allocator \<Rightarrow> qsort_fn \<Rightarrow> size_t \<Rightarrow> vec2 \<Rightarrow> op list \<Rightarrow> vec2 outcome" where
  "run a q el_size v [] = Return True v"
| "run a q el_size v [x] = step a q el_size v x"
| "run a q el_size v (x # y # ys) =
     (case step a q el_size v x of
        Return ok v1 \<Rightarrow> run a q el_size v1 (y # ys)
      | Undefined \<Rightarrow> Undefined
      | Nonterminating \<Rightarrow> Nonterminating)"

subsection \<open>Logical content and invariants\<close>

text \<open>The live elements: \<open>size\<close> elements of \<open>el_size\<close> bytes each, from \<^verbatim>\<open>data\<close> on.\<close>

definition vec2_content :: "vec2 \<Rightarrow> size_t \<Rightarrow> byte list" where
  "vec2_content v el_size =
     (case vec2_data v of
        NULL \<Rightarrow> []
      | Ptr p \<Rightarrow> take (unat (vec2_size v) * unat el_size) (drop p (heap v)))"

text \<open>The three invariants on the bookkeeping fields.\<close>

definition vec2_invariants :: "vec2 \<Rightarrow> bool" where
  "vec2_invariants v \<longleftrightarrow>
     vec2_size v \<le> vec2_capacity v \<and>
     (vec2_capacity v = 0 \<longleftrightarrow> vec2_data v = NULL) \<and>
     unat (vec2_start v) + unat (vec2_size v) \<le> unat (vec2_capacity v)"

text \<open>
  A well-formed vector for elements of \<open>el_size\<close> bytes: the invariants hold, \<^verbatim>\<open>data\<close> is
  \<open>start\<close> elements above the base of the block, the block has room for \<open>capacity\<close>
  elements, and its size fits a \<^verbatim>\<open>size_t\<close>.
\<close>

definition vec2_wf :: "vec2 \<Rightarrow> size_t \<Rightarrow> bool" where
  "vec2_wf v el_size \<longleftrightarrow>
     vec2_invariants v \<and>
     el_size \<noteq> 0 \<and>
     (case vec2_data v of
        NULL \<Rightarrow> heap v = []
      | Ptr p \<Rightarrow> p = unat (vec2_start v) * unat el_size) \<and>
     unat (vec2_capacity v) * unat el_size \<le> length (heap v) \<and>
     length (heap v) < 2 ^ 64"

subsection \<open>Fixtures for concrete runs\<close>

text \<open>
  An allocator that always succeeds and hands out zeroed bytes, one that grants a request
  of nine bytes and refuses every other one, and a \<^verbatim>\<open>qsort\<close> that leaves the bytes as
  they are.
\<close>

definition zero_alloc :: allocator where
  "zero_alloc n = Some (\<lambda>i. 0)"

definition alloc_9 :: allocator where
  "alloc_9 n = (if n = 9 then Some (\<lambda>i. 0) else None)"

definition id_qsort :: qsort_fn where
  "id_qsort b nmemb el_size cmp = b"

text \<open>
  Vectors that short sequences of calls on the empty vector leave (lemma
  \<open>fixtures_reachable\<close> below): one-byte elements 1, 2, 3; the same behind one slot of
  front slack; 1 and 2 in a block of 64 slots; one element behind one slot of front
  slack in a block of nine; and three two-byte elements behind one slot of front slack.
\<close>

definition vec_123 :: vec2 where
  "vec_123 =
     \<lparr>vec2_size = 3, vec2_capacity = 8, vec2_idx = 0, vec2_start = 0,
      vec2_data = Ptr 0, heap = [1, 2, 3, 0, 0, 0, 0, 0]\<rparr>"

definition vec_123_slack :: vec2 where
  "vec_123_slack =
     \<lparr>vec2_size = 3, vec2_capacity = 8, vec2_idx = 0, vec2_start = 1,
      vec2_data = Ptr 1, heap = [0, 1, 2, 3, 0, 0, 0, 0]\<rparr>"

definition vec_64 :: vec2 where
  "vec_64 =
     \<lparr>vec2_size = 2, vec2_capacity = 64, vec2_idx = 0, vec2_start = 0,
      vec2_data = Ptr 0, heap = [1, 2] @ replicate 62 0\<rparr>"

definition vec_front_removed :: vec2 where
  "vec_front_removed =
     \<lparr>vec2_size = 1, vec2_capacity = 9, vec2_idx = 0, vec2_start = 1,
      vec2_data = Ptr 1, heap = [1, 2, 0, 0, 0, 0, 0, 0, 0]\<rparr>"

definition vec_slack :: vec2 where
  "vec_slack =
     \<lparr>vec2_size = 3, vec2_capacity = 5, vec2_idx = 0, vec2_start = 1,
      vec2_data = Ptr 2, heap = [0, 0, 1, 2, 3, 4, 5, 6, 0, 0]\<rparr>"

section \<open>Word arithmetic\<close>

lemma word_add_wraps_iff:
  "(x + y < x) \<longleftrightarrow> 2 ^ 64 \<le> unat x + unat y" for x y :: size_t
  using no_olen_add_nat [of x y] by (simp add: not_le [symmetric])

lemma unat_add_64:
  "unat x + unat y < 2 ^ 64 \<Longrightarrow> unat (x + y) = unat x + unat y" for x y :: size_t
  using unat_add_lem [of x y] by simp

lemma unat_mult_64:
  "unat x * unat y < 2 ^ 64 \<Longrightarrow> unat (x * y) = unat x * unat y" for x y :: size_t
  using unat_mult_lem [of x y] by simp

text \<open>The division test of \<^verbatim>\<open>_vec2_reserve\<close> catches every overflow of the product.\<close>

lemma word_mul_div_overflow:
  fixes n e :: size_t
  assumes e: "e \<noteq> 0" and ov: "2 ^ 64 \<le> unat n * unat e"
  shows "(n * e) div e \<noteq> n"
proof
  assume eq: "(n * e) div e = n"
  have pos: "0 < unat e" using e by (simp add: unat_gt_0)
  have "unat (n * e) = (unat n * unat e) mod 2 ^ 64"
    by (simp add: unat_word_ariths)
  also have "\<dots> < 2 ^ 64" by simp
  finally have "unat (n * e) < unat n * unat e" using ov by simp
  then have "unat (n * e) div unat e < unat n"
    using pos by (simp add: div_less_iff_less_mult)
  then have "unat ((n * e) div e) < unat n" by (simp add: unat_div)
  with eq show False by simp
qed

section \<open>Concrete runs\<close>

lemma fixtures_reachable:
  "run zero_alloc id_qsort 1 VEC2_INITIALIZER [Op_insert 0 (Some [1, 2, 3]) 3] =
     Return True vec_123"
  "run zero_alloc id_qsort 1 VEC2_INITIALIZER
     [Op_insert 0 (Some [0, 1, 2, 3]) 4, Op_remove 0 1 None] = Return True vec_123_slack"
  "run zero_alloc id_qsort 1 VEC2_INITIALIZER [Op_reserve 64, Op_insert 0 (Some [1, 2]) 2] =
     Return True vec_64"
  "run alloc_9 id_qsort 1 VEC2_INITIALIZER
     [Op_reserve 9, Op_insert 0 (Some [1, 2]) 2, Op_remove 0 1 None] =
     Return True vec_front_removed"
  "run zero_alloc id_qsort 2 VEC2_INITIALIZER
     [Op_reserve 5, Op_insert 0 (Some [0, 0, 1, 2, 3, 4, 5, 6]) 4, Op_remove 0 1 None] =
     Return True vec_slack"
  by code_simp+

text \<open>
  The five pushes, the removal, the front insertion, the three front removals and the
  swap of the specification's scenarios, on one-byte elements.
\<close>

lemma scenarios:
  "run zero_alloc id_qsort 1 VEC2_INITIALIZER
     [Op_insert 0 (Some [1]) 1, Op_insert 1 (Some [2]) 1, Op_insert 2 (Some [3]) 1,
      Op_insert 3 (Some [4]) 1, Op_insert 4 (Some [5]) 1] =
     Return True
       \<lparr>vec2_size = 5, vec2_capacity = 8, vec2_idx = 0, vec2_start = 0,
        vec2_data = Ptr 0, heap = [1, 2, 3, 4, 5, 0, 0, 0]\<rparr>"
  "vec2_impl_remove
     \<lparr>vec2_size = 5, vec2_capacity = 8, vec2_idx = 0, vec2_start = 0,
      vec2_data = Ptr 0, heap = [1, 2, 3, 4, 5, 0, 0, 0]\<rparr> 1 2 1 (Some [0, 0]) =
     Return True
       (\<lparr>vec2_size = 3, vec2_capacity = 8, vec2_idx = 0, vec2_start = 0,
         vec2_data = Ptr 0, heap = [1, 4, 5, 4, 5, 0, 0, 0]\<rparr>, Some [2, 3])"
  "run zero_alloc id_qsort 1
     \<lparr>vec2_size = 3, vec2_capacity = 8, vec2_idx = 0, vec2_start = 0,
      vec2_data = Ptr 0, heap = [1, 4, 5, 4, 5, 0, 0, 0]\<rparr>
     [Op_insert 0 (Some [9, 9]) 2] =
     Return True
       \<lparr>vec2_size = 5, vec2_capacity = 8, vec2_idx = 0, vec2_start = 0,
        vec2_data = Ptr 0, heap = [9, 9, 1, 4, 5, 0, 0, 0]\<rparr>"
  "run zero_alloc id_qsort 1
     \<lparr>vec2_size = 5, vec2_capacity = 8, vec2_idx = 0, vec2_start = 0,
      vec2_data = Ptr 0, heap = [9, 9, 1, 4, 5, 0, 0, 0]\<rparr>
     [Op_remove 0 1 None, Op_remove 0 1 None, Op_remove 0 1 None, Op_swap 0 1] =
     Return True
       \<lparr>vec2_size = 2, vec2_capacity = 8, vec2_idx = 0, vec2_start = 3,
        vec2_data = Ptr 3, heap = [9, 9, 1, 5, 4, 0, 0, 0]\<rparr>"
  by code_simp+

section \<open>The growth loop\<close>

text \<open>
  From \<open>addition = 0\<close> the first loop of \<^verbatim>\<open>_vec2_create_hole\<close> never ends: the next value
  is again 0 and is not smaller than 0. A capacity of 1 gives \<open>addition = 0\<close>, so a push
  on a full vector of capacity 1 does not return.
\<close>

lemma grow_addition_zero_aux:
  assumes "grow_addition addition len = Some y"
  shows "addition = 0 \<longrightarrow> len = 0"
proof (rule grow_addition.raw_induct [where P = "\<lambda>a l y. a = 0 \<longrightarrow> l = 0", OF _ assms])
  fix grow :: "uint \<Rightarrow> size_t \<Rightarrow> uint option" and a l r
  assume IH: "\<And>a l r. grow a l = Some r \<Longrightarrow> a = 0 \<longrightarrow> l = 0"
    and body: "(if (ucast a :: size_t) < l then
                  let next_addition = (ucast (push_bit 1 a + drop_bit 1 a) :: size_t) in
                  if next_addition < ucast a then Some (ucast l)
                  else grow (ucast next_addition) l
                else Some a) = Some r"
  show "a = 0 \<longrightarrow> l = 0"
  proof (intro impI, rule ccontr)
    assume a: "a = 0" and "l \<noteq> 0"
    then have "(ucast a :: size_t) < l" by (simp add: word_gt_0)
    with body a have "grow 0 l = Some r" by (simp add: Let_def)
    from IH [OF this] \<open>l \<noteq> 0\<close> show False by simp
  qed
qed

lemma grow_addition_zero: "len \<noteq> 0 \<Longrightarrow> grow_addition 0 len = None"
  using grow_addition_zero_aux [of 0 len] by (cases "grow_addition 0 len") auto

lemma push_after_reserve_one_never_returns:
  "run zero_alloc id_qsort 1 VEC2_INITIALIZER [Op_reserve 1, Op_insert 0 (Some [1]) 1] =
     Return True
       \<lparr>vec2_size = 1, vec2_capacity = 1, vec2_idx = 0, vec2_start = 0,
        vec2_data = Ptr 0, heap = [1]\<rparr>"
  "vec2_impl_insert zero_alloc
     \<lparr>vec2_size = 1, vec2_capacity = 1, vec2_idx = 0, vec2_start = 0,
      vec2_data = Ptr 0, heap = [1]\<rparr> 1 (Some [2]) 1 1 = Nonterminating"
proof -
  show "run zero_alloc id_qsort 1 VEC2_INITIALIZER [Op_reserve 1, Op_insert 0 (Some [1]) 1] =
     Return True
       \<lparr>vec2_size = 1, vec2_capacity = 1, vec2_idx = 0, vec2_start = 0,
        vec2_data = Ptr 0, heap = [1]\<rparr>"
    by code_simp
  have "grow_addition 0 (1 :: size_t) = None" by (rule grow_addition_zero) simp
  then show "vec2_impl_insert zero_alloc
     \<lparr>vec2_size = 1, vec2_capacity = 1, vec2_idx = 0, vec2_start = 0,
      vec2_data = Ptr 0, heap = [1]\<rparr> 1 (Some [2]) 1 1 = Nonterminating"
    by (simp add: vec2_impl_insert_def vec2_impl_valid_def vec2_create_hole_def
        vec2_create_hole_reserve_def)
qed

section \<open>Overflow guards of reserve\<close>

text \<open>
  Claim C6. For a valid vector and a non-zero element size: when \<open>additional\<close> exceeds
  \<open>capacity - size\<close> and either \<open>capacity + additional\<close> wraps the 64-bit word or
  \<open>(capacity + additional) * el_size\<close> does not fit it, reserve returns \<open>FALSE\<close> and the
  vector is exactly as it was, whatever the allocator would have answered.
\<close>

theorem reserve_overflow_guard:
  assumes "vec2_impl_valid v" and "el_size \<noteq> 0"
    and "additional > vec2_capacity v - vec2_size v"
    and "2 ^ 64 \<le> unat (vec2_capacity v) + unat additional \<or>
         2 ^ 64 \<le> (unat (vec2_capacity v) + unat additional) * unat el_size"
  shows "vec2_impl_reserve a v additional el_size = Return False v"
proof (cases "vec2_capacity v + additional < vec2_capacity v")
  case True
  with assms show ?thesis
    by (simp add: vec2_impl_reserve_def vec2_reserve_def Let_def)
next
  case False
  then have nowrap: "unat (vec2_capacity v) + unat additional < 2 ^ 64"
    by (simp add: word_add_wraps_iff)
  then have "unat (vec2_capacity v + additional) = unat (vec2_capacity v) + unat additional"
    by (rule unat_add_64)
  with assms(4) nowrap have "2 ^ 64 \<le> unat (vec2_capacity v + additional) * unat el_size"
    by simp
  with assms(2)
  have "(vec2_capacity v + additional) * el_size div el_size \<noteq> vec2_capacity v + additional"
    by (rule word_mul_div_overflow)
  with assms False show ?thesis
    by (simp add: vec2_impl_reserve_def vec2_reserve_def Let_def)
qed

text \<open>
  The guard at work: asking the empty vector for \<open>2 ^ 63\<close> more elements of two bytes
  each fails on the byte count and changes nothing.
\<close>

theorem reserve_overflow_guard_witness:
  "vec2_impl_valid VEC2_INITIALIZER \<and> (2 :: size_t) \<noteq> 0 \<and>
   (2 ^ 63 :: size_t) > vec2_capacity VEC2_INITIALIZER - vec2_size VEC2_INITIALIZER \<and>
   (2 ^ 64 :: nat) \<le>
     (unat (vec2_capacity VEC2_INITIALIZER) + unat (2 ^ 63 :: size_t)) * unat (2 :: size_t) \<and>
   vec2_impl_reserve zero_alloc VEC2_INITIALIZER (2 ^ 63) 2 = Return False VEC2_INITIALIZER"
proof -
  have h1: "vec2_impl_valid VEC2_INITIALIZER"
    by (simp add: vec2_impl_valid_def VEC2_INITIALIZER_def)
  have h2: "(2 :: size_t) \<noteq> 0" by simp
  have h3: "(2 ^ 63 :: size_t) > vec2_capacity VEC2_INITIALIZER - vec2_size VEC2_INITIALIZER"
    by (simp add: VEC2_INITIALIZER_def)
  have h4: "(2 ^ 64 :: nat) \<le>
      (unat (vec2_capacity VEC2_INITIALIZER) + unat (2 ^ 63 :: size_t)) * unat (2 :: size_t)"
    by (simp add: VEC2_INITIALIZER_def)
  show ?thesis
    using h1 h2 h3 h4 reserve_overflow_guard [OF h1 h2 h3 disjI2 [OF h4], of zero_alloc]
    by simp
qed

section \<open>Removal\<close>

lemma wf_unat_mult:
  assumes "vec2_wf v el_size" and "unat x \<le> unat (vec2_capacity v)"
  shows "unat (x * el_size) = unat x * unat el_size"
proof -
  have "unat x * unat el_size \<le> unat (vec2_capacity v) * unat el_size"
    using assms(2) by (rule mult_le_mono1)
  also have "\<dots> \<le> length (heap v)" using assms(1) by (simp add: vec2_wf_def)
  also have "\<dots> < 2 ^ 64" using assms(1) by (simp add: vec2_wf_def)
  finally show ?thesis by (rule unat_mult_64)
qed

lemma wf_valid: "vec2_wf v el_size \<Longrightarrow> vec2_impl_valid v"
  by (simp add: vec2_wf_def vec2_invariants_def vec2_impl_valid_def)

lemma split4:
  assumes "p + a + b + c \<le> length h"
  obtains pre A B C post where "h = pre @ A @ B @ C @ post"
    and "length pre = p" and "length A = a" and "length B = b" and "length C = c"
proof
  let ?h1 = "drop p h"
  let ?h2 = "drop a ?h1"
  let ?h3 = "drop b ?h2"
  have "h = take p h @ ?h1" by (rule append_take_drop_id [symmetric])
  also have "?h1 = take a ?h1 @ ?h2" by (rule append_take_drop_id [symmetric])
  also have "?h2 = take b ?h2 @ ?h3" by (rule append_take_drop_id [symmetric])
  also have "?h3 = take c ?h3 @ drop c ?h3" by (rule append_take_drop_id [symmetric])
  finally show "h = take p h @ take a ?h1 @ take b ?h2 @ take c ?h3 @ drop c ?h3" .
  show "length (take p h) = p" using assms by simp
  show "length (take a ?h1) = a" using assms by simp
  show "length (take b ?h2) = b" using assms by simp
  show "length (take c ?h3) = c" using assms by simp
qed

lemma wf_heap_update:
  "vec2_wf v el_size \<Longrightarrow> length h' = length (heap v) \<Longrightarrow> vec2_wf (v\<lparr>heap := h'\<rparr>) el_size"
  by (auto simp: vec2_wf_def vec2_invariants_def split: ptr.splits)

lemma wf_size_sub:
  assumes "vec2_wf v el_size" and "len \<le> vec2_size v"
  shows "vec2_wf (v\<lparr>vec2_size := vec2_size v - len\<rparr>) el_size"
proof -
  have "unat (vec2_size v - len) \<le> unat (vec2_size v)"
    using assms(2) by (simp add: unat_sub)
  then show ?thesis
    using assms(1) by (auto simp: vec2_wf_def vec2_invariants_def word_le_nat_alt split: ptr.splits)
qed

text \<open>The facts about a successful removal of a non-empty run.\<close>

lemma remove_run:
  assumes wf: "vec2_wf v el_size"
    and out_fits: "case out of None \<Rightarrow> True | Some b \<Rightarrow> unat len * unat el_size \<le> length b"
    and len: "len \<noteq> 0" "len \<le> vec2_size v" "idx \<le> vec2_size v - len"
  shows "\<exists>v' out'. vec2_remove v idx len el_size out = Return True (v', out') \<and>
           vec2_content v' el_size =
             take (unat idx * unat el_size) (vec2_content v el_size) @
             drop ((unat idx + unat len) * unat el_size) (vec2_content v el_size) \<and>
           vec2_size v' = vec2_size v - len \<and> vec2_capacity v' = vec2_capacity v \<and>
           out' = map_option
                    (\<lambda>b. take (unat len * unat el_size)
                           (drop (unat idx * unat el_size) (vec2_content v el_size)) @
                         drop (unat len * unat el_size) b) out \<and>
           vec2_wf v' el_size"
proof -
  define S0 S C E I L where "S0 = unat (vec2_start v)" and "S = unat (vec2_size v)"
    and "C = unat (vec2_capacity v)" and "E = unat el_size" and "I = unat idx" and "L = unat len"
  note defs = S0_def S_def C_def E_def I_def L_def
  have L_le: "L \<le> S" using len(2) by (simp add: defs word_le_nat_alt)
  have sub: "unat (vec2_size v - len) = S - L"
    using len(2) by (simp add: defs unat_sub)
  have I_le: "I + L \<le> S" using len(3) L_le by (simp add: word_le_nat_alt sub) (simp add: defs)
  have L_pos: "0 < L" using len(1) by (simp add: defs unat_gt_0)
  have inv: "S0 + S \<le> C" "S \<le> C"
    using wf by (simp_all add: vec2_wf_def vec2_invariants_def defs word_le_nat_alt)
  have cap_nz: "vec2_capacity v \<noteq> 0"
    using inv L_pos L_le by (auto simp: defs)
  then obtain p where data: "vec2_data v = Ptr p" and p: "p = S0 * E"
    using wf by (cases "vec2_data v") (auto simp: vec2_wf_def vec2_invariants_def defs)
  have heap_len: "C * E \<le> length (heap v)" "length (heap v) < 2 ^ 64"
    using wf by (simp_all add: vec2_wf_def defs)
  have mult: "\<And>x. unat x \<le> C \<Longrightarrow> unat (x * el_size) = unat x * E"
    using wf_unat_mult [OF wf] by (simp add: defs)
  define a b c where "a = I * E" and "b = L * E" and "c = (S - L - I) * E"
  have abc: "a + b + c = S * E"
    using I_le by (simp add: a_def b_def c_def add_mult_distrib [symmetric])
  have "(S0 + S) * E \<le> C * E" using inv(1) by (rule mult_le_mono1)
  then have bound: "p + a + b + c \<le> length (heap v)"
    using heap_len(1) abc by (simp add: p add_mult_distrib)
  from split4 [OF bound] obtain pre A B Cs post
    where h: "heap v = pre @ A @ B @ Cs @ post"
      and lens: "length pre = p" "length A = a" "length B = b" "length Cs = c"
    by blast
  have X: "vec2_content v el_size = A @ B @ Cs"
    using lens abc by (simp add: vec2_content_def data h defs [symmetric])
  have u_idx: "unat (idx * el_size) = a"
    using mult [of idx] I_le inv by (simp add: a_def defs)
  have u_len: "unat (len * el_size) = b"
    using mult [of len] L_le inv by (simp add: b_def defs)
  have u_sub: "unat (vec2_size v - len) = S - L" by (rule sub)
  define out' where "out' = map_option (\<lambda>bb. B @ drop b bb) out"
  have out_res: "(case out of None \<Rightarrow> Some None
      | Some bb \<Rightarrow> map_option Some
          (load_heap (heap v) (VEC2_GET v el_size idx) bb (unat (len * el_size)))) = Some out'"
    using out_fits bound lens
    by (auto simp: out'_def load_heap_def VEC2_GET_def ptr_add_def data u_idx u_len h b_def defs
        split: option.splits)
  have out_claim: "out' = map_option
                    (\<lambda>bb. take (unat len * unat el_size)
                           (drop (unat idx * unat el_size) (vec2_content v el_size)) @
                         drop (unat len * unat el_size) bb) out"
    using lens by (simp add: out'_def X a_def [symmetric] b_def [symmetric] defs [symmetric])
  have rhs: "take (unat idx * unat el_size) (vec2_content v el_size) @
             drop ((unat idx + unat len) * unat el_size) (vec2_content v el_size) = A @ Cs"
    using lens
    by (simp add: X add_mult_distrib a_def [symmetric] b_def [symmetric] defs [symmetric])
  have pre: "\<not> vec2_size v < len" "\<not> vec2_size v - len < idx"
    using len by (simp_all add: not_less)
  have unfold: "vec2_remove v idx len el_size out =
      (let v1 = v\<lparr>vec2_size := vec2_size v - len\<rparr> in
       if vec2_size v1 \<noteq> 0 then
         if idx = 0 then
           (case ptr_add (vec2_data v1) (unat (len * el_size)) of
              None \<Rightarrow> Undefined
            | Some p \<Rightarrow>
                Return True (v1\<lparr>vec2_start := vec2_start v1 + len, vec2_data := p\<rparr>, out'))
         else if idx < vec2_size v1 then
           (case memmove_heap (heap v1) (VEC2_GET v1 el_size idx)
                   (VEC2_GET v1 el_size (idx + len))
                   (unat ((vec2_size v1 - idx) * el_size)) of
              None \<Rightarrow> Undefined
            | Some h \<Rightarrow> Return True (v1\<lparr>heap := h\<rparr>, out'))
         else Return True (v1, out')
       else Return True (v1, out'))"
    using pre len(1) by (simp add: vec2_remove_def out_res)
  consider (empty) "vec2_size v - len = 0"
    | (front) "vec2_size v - len \<noteq> 0" "idx = 0"
    | (interior) "vec2_size v - len \<noteq> 0" "idx \<noteq> 0" "idx < vec2_size v - len"
    | (at_end) "vec2_size v - len \<noteq> 0" "idx \<noteq> 0" "\<not> idx < vec2_size v - len"
    by blast
  then show ?thesis
  proof cases
    case empty
    then have "S - L = 0" using u_sub by simp
    then have z: "a = 0" "c = 0" using I_le by (simp_all add: a_def c_def)
    have r: "vec2_remove v idx len el_size out = Return True (v\<lparr>vec2_size := vec2_size v - len\<rparr>, out')"
      unfolding unfold using empty by simp
    have "vec2_wf (v\<lparr>vec2_size := vec2_size v - len\<rparr>) el_size"
      using wf len(2) by (rule wf_size_sub)
    moreover have "vec2_content (v\<lparr>vec2_size := vec2_size v - len\<rparr>) el_size = A @ Cs"
      using lens z empty by (simp add: vec2_content_def data)
    ultimately show ?thesis using r out_claim rhs by simp
  next
    case front
    then have z: "a = 0" "I = 0" by (simp_all add: a_def defs)
    have c: "c = (S - L) * E" using z by (simp add: c_def)
    have nowrap: "unat (vec2_start v + len) = S0 + L"
      using inv L_le unsigned_less [of "vec2_capacity v", where 'a = nat]
      by (simp add: defs unat_add_64)
    let ?v' = "v\<lparr>vec2_size := vec2_size v - len, vec2_start := vec2_start v + len,
                    vec2_data := Ptr (p + b)\<rparr>"
    have r: "vec2_remove v idx len el_size out = Return True (?v', out')"
      unfolding unfold using front by (simp add: ptr_add_def data u_len)
    have "vec2_wf ?v' el_size"
      using wf inv L_le
      by (simp add: vec2_wf_def vec2_invariants_def nowrap u_sub word_le_nat_alt data p b_def
          add_mult_distrib defs [symmetric])
    moreover have "vec2_content ?v' el_size = A @ Cs"
      using lens z by (simp add: vec2_content_def h u_sub c [symmetric] defs [symmetric])
    ultimately show ?thesis using r out_claim rhs by simp
  next
    case interior
    have lt: "I < S - L" using interior(3) by (simp add: word_less_nat_alt u_sub defs)
    have u_sum: "unat (idx + len) = I + L"
      using I_le unsigned_less [of "vec2_size v", where 'a = nat] by (simp add: defs unat_add_64)
    have u_src: "unat ((idx + len) * el_size) = a + b"
      using mult [of "idx + len"] I_le inv by (simp add: u_sum a_def b_def add_mult_distrib)
    have u_rest: "unat (vec2_size v - len - idx) = S - L - I"
      using lt interior(3) by (simp add: unat_sub u_sub defs [symmetric])
    have u_cnt: "unat ((vec2_size v - len - idx) * el_size) = c"
      using mult [of "vec2_size v - len - idx"] inv by (simp add: u_rest c_def)
    let ?h' = "pre @ A @ Cs @ drop c (B @ Cs) @ post"
    let ?v' = "v\<lparr>vec2_size := vec2_size v - len, heap := ?h'\<rparr>"
    have mm: "memmove_heap (heap v) (Some (Ptr (p + a))) (Some (Ptr (p + (a + b)))) c = Some ?h'"
      using lens by (simp add: memmove_heap_def h)
    have r: "vec2_remove v idx len el_size out = Return True (?v', out')"
      unfolding unfold using interior mm
      by (simp add: VEC2_GET_def ptr_add_def data u_idx u_src u_cnt)
    have "length ?h' = length (heap (v\<lparr>vec2_size := vec2_size v - len\<rparr>))"
      using lens by (simp add: h)
    with wf_size_sub [OF wf len(2)] have "vec2_wf ?v' el_size"
      by (rule wf_heap_update)
    moreover have ac: "(S - L) * E = a + c"
      using lt by (simp add: a_def c_def add_mult_distrib [symmetric])
    have "vec2_content ?v' el_size = A @ Cs"
      using lens by (simp add: vec2_content_def data u_sub ac defs [symmetric])
    ultimately show ?thesis using r out_claim rhs by simp
  next
    case at_end
    have "I = S - L" using at_end(3) I_le by (simp add: word_less_nat_alt u_sub defs)
    then have z: "c = 0" "(S - L) * E = a" by (simp_all add: c_def a_def)
    let ?v' = "v\<lparr>vec2_size := vec2_size v - len\<rparr>"
    have r: "vec2_remove v idx len el_size out = Return True (?v', out')"
      unfolding unfold using at_end by simp
    have "vec2_wf ?v' el_size"
      using wf len(2) by (rule wf_size_sub)
    moreover have "vec2_content ?v' el_size = A @ Cs"
      using lens z by (simp add: vec2_content_def data h u_sub defs [symmetric])
    ultimately show ?thesis using r out_claim rhs by simp
  qed
qed


text \<open>
  Claim C5. On a well-formed vector with content \<open>X\<close>, remove fails exactly when
  \<open>len > size\<close> or \<open>idx > size - len\<close>, and then changes nothing. Otherwise it succeeds:
  the content becomes \<open>X[0:idx] + X[idx+len:]\<close> (in bytes, elements being \<open>el_size\<close> bytes
  each), the size drops by \<open>len\<close>, the capacity stays, a destination that is given (and has
  room for \<open>len\<close> elements) receives \<open>X[idx:idx+len]\<close>, the vector stays well formed, and
  with \<open>len = 0\<close> the vector is untouched.
\<close>

theorem remove_semantics:
  assumes wf: "vec2_wf v el_size"
    and out_fits: "case out of None \<Rightarrow> True | Some b \<Rightarrow> unat len * unat el_size \<le> length b"
  shows "if len > vec2_size v \<or> idx > vec2_size v - len
         then vec2_impl_remove v idx len el_size out = Return False (v, out)
         else \<exists>v' out'.
           vec2_impl_remove v idx len el_size out = Return True (v', out') \<and>
           vec2_content v' el_size =
             take (unat idx * unat el_size) (vec2_content v el_size) @
             drop ((unat idx + unat len) * unat el_size) (vec2_content v el_size) \<and>
           vec2_size v' = vec2_size v - len \<and> vec2_capacity v' = vec2_capacity v \<and>
           out' = map_option
                    (\<lambda>b. take (unat len * unat el_size)
                           (drop (unat idx * unat el_size) (vec2_content v el_size)) @
                         drop (unat len * unat el_size) b) out \<and>
           (len = 0 \<longrightarrow> v' = v) \<and>
           vec2_wf v' el_size"
proof -
  have pub: "vec2_impl_remove v idx len el_size out = vec2_remove v idx len el_size out"
    using wf wf_valid [OF wf] by (simp add: vec2_impl_remove_def vec2_wf_def)
  show ?thesis
  proof (cases "len > vec2_size v \<or> idx > vec2_size v - len")
    case True
    then show ?thesis unfolding pub by (auto simp: vec2_remove_def)
  next
    case False
    then have le: "len \<le> vec2_size v" "idx \<le> vec2_size v - len" by (simp_all add: not_less)
    show ?thesis
    proof (cases "len = 0")
      case True
      have "vec2_remove v idx len el_size out = Return True (v, out)"
        using False True by (simp add: vec2_remove_def)
      moreover have "map_option (\<lambda>b. b) out = out" by (cases out) simp_all
      ultimately show ?thesis unfolding pub using False True wf by simp
    next
      case nz: False
      from remove_run [OF wf out_fits nz le] show ?thesis
        unfolding pub using False nz by simp
    qed
  qed
qed

text \<open>
  Removing the middle element of three two-byte elements, with front slack, into a
  destination; and a removal past the end, which fails.
\<close>

theorem remove_semantics_witness:
  "vec2_wf vec_slack 2 \<and>
   vec2_content vec_slack 2 = [1, 2, 3, 4, 5, 6] \<and>
   vec2_impl_remove vec_slack 1 1 2 (Some [0, 0]) =
     Return True (vec_slack\<lparr>vec2_size := 2, heap := [0, 0, 1, 2, 5, 6, 5, 6, 0, 0]\<rparr>, Some [3, 4]) \<and>
   vec2_impl_remove vec_slack 3 1 2 None = Return False (vec_slack, None)"
proof -
  have wf: "vec2_wf vec_slack 2"
    by (simp add: vec2_wf_def vec2_invariants_def vec_slack_def)
  have fits: "case Some [0, 0 :: byte] of None \<Rightarrow> True
              | Some b \<Rightarrow> unat (1 :: size_t) * unat (2 :: size_t) \<le> length b"
    by simp
  have run: "vec2_impl_remove vec_slack 1 1 2 (Some [0, 0]) =
     Return True (vec_slack\<lparr>vec2_size := 2, heap := [0, 0, 1, 2, 5, 6, 5, 6, 0, 0]\<rparr>, Some [3, 4])"
    by code_simp
  have r2: "vec2_impl_remove vec_slack 3 1 2 None = Return False (vec_slack, None)"
    using remove_semantics [OF wf, where out = None and len = 1 and idx = 3]
    by (simp add: vec_slack_def)
  have c: "vec2_content vec_slack 2 = [1, 2, 3, 4, 5, 6]"
    by (simp add: vec2_content_def vec_slack_def)
  show ?thesis
    using wf c run r2 remove_semantics [OF wf fits, where idx = 1] by simp
qed


text \<open>
  Claim C10. Removing a run that ends at the last live element, with \<open>0 < len < size\<close>
  and \<open>idx = size - len\<close>, moves no byte: the call succeeds and the vector it leaves is the
  old one with only \<open>size\<close> lowered, so \<open>start\<close>, \<open>data\<close>, \<open>capacity\<close> and the whole heap
  block are as before. With a destination the removed bytes are copied out first, which
  only reads the block.
\<close>

theorem remove_tail_moves_nothing:
  assumes "vec2_impl_valid v" and "el_size \<noteq> 0"
    and "0 < len" and "len < vec2_size v" and "idx = vec2_size v - len"
  shows "vec2_impl_remove v idx len el_size None =
           Return True (v\<lparr>vec2_size := vec2_size v - len\<rparr>, None) \<and>
         (\<forall>b. vec2_impl_remove v idx len el_size (Some b) = Undefined \<or>
              (\<exists>b'. vec2_impl_remove v idx len el_size (Some b) =
                      Return True (v\<lparr>vec2_size := vec2_size v - len\<rparr>, Some b')))"
proof -
  from assms have "vec2_size v - len \<noteq> 0" and "len \<noteq> 0" and "\<not> vec2_size v < len"
    by (auto simp: word_gt_0)
  with assms show ?thesis
    by (auto simp: vec2_impl_remove_def vec2_remove_def Let_def split: option.splits)
qed

text \<open>Popping the last of the three elements of \<open>vec_123\<close>, with and without a destination.\<close>

theorem remove_tail_moves_nothing_witness:
  "vec2_impl_valid vec_123 \<and> (1 :: size_t) \<noteq> 0 \<and> (0 :: size_t) < 1 \<and>
   (1 :: size_t) < vec2_size vec_123 \<and> (2 :: size_t) = vec2_size vec_123 - 1 \<and>
   vec2_impl_remove vec_123 2 1 1 None = Return True (vec_123\<lparr>vec2_size := 2\<rparr>, None) \<and>
   vec2_impl_remove vec_123 2 1 1 (Some [0]) =
     Return True (vec_123\<lparr>vec2_size := 2\<rparr>, Some [3])"
proof -
  have h1: "vec2_impl_valid vec_123" by (simp add: vec2_impl_valid_def vec_123_def)
  have h2: "(1 :: size_t) \<noteq> 0" and h3: "(0 :: size_t) < 1" by simp_all
  have h4: "(1 :: size_t) < vec2_size vec_123" by (simp add: vec_123_def)
  have h5: "(2 :: size_t) = vec2_size vec_123 - 1" by (simp add: vec_123_def)
  have out: "vec2_impl_remove vec_123 2 1 1 (Some [0]) =
     Return True (vec_123\<lparr>vec2_size := 2\<rparr>, Some [3])"
    by code_simp
  from remove_tail_moves_nothing [OF h1 h2 h3 h4 h5]
  have "vec2_impl_remove vec_123 2 1 1 None =
          Return True (vec_123\<lparr>vec2_size := vec2_size vec_123 - 1\<rparr>, None)"
    by simp
  then show ?thesis using h1 h4 out by (simp add: vec_123_def)
qed

section \<open>The hole algorithm: preconditions\<close>

text \<open>
  Claim C7. \<^verbatim>\<open>create_hole\<close> fails when \<open>len = 0\<close>, when \<open>idx > size\<close>, and when
  \<open>size + len\<close> wraps the 64-bit word; on each of these the vector is exactly as it was. It
  holds for the static function and for the public one, for every vector, allocator and
  element size.
\<close>

theorem create_hole_precondition_failure:
  assumes "len = 0 \<or> idx > vec2_size v \<or> 2 ^ 64 \<le> unat (vec2_size v) + unat len"
  shows "vec2_create_hole a v idx len el_size = Return False v \<and>
         vec2_impl_create_hole a v idx len el_size = Return False v"
proof -
  from assms have "len \<le> 0 \<or> idx > vec2_size v \<or> vec2_size v + len < vec2_size v"
    by (auto simp: word_add_wraps_iff)
  then have "vec2_create_hole a v idx len el_size = Return False v"
    by (simp add: vec2_create_hole_def)
  then show ?thesis
    by (simp add: vec2_impl_create_hole_def)
qed

text \<open>
  The three preconditions on \<open>vec_123\<close>: an empty hole, a hole past the end, and a length
  that wraps the size.
\<close>

theorem create_hole_precondition_failure_witness:
  "vec2_impl_create_hole zero_alloc vec_123 1 0 1 = Return False vec_123 \<and>
   vec2_size vec_123 < 4 \<and>
   vec2_impl_create_hole zero_alloc vec_123 4 1 1 = Return False vec_123 \<and>
   (2 ^ 64 :: nat) \<le> unat (vec2_size vec_123) + unat (18446744073709551615 :: size_t) \<and>
   vec2_impl_create_hole zero_alloc vec_123 1 18446744073709551615 1 = Return False vec_123"
proof -
  have h2: "vec2_size vec_123 < 4" by (simp add: vec_123_def)
  have h3: "(2 ^ 64 :: nat) \<le> unat (vec2_size vec_123) + unat (18446744073709551615 :: size_t)"
    by (simp add: vec_123_def)
  show ?thesis
    using h2 h3
      create_hole_precondition_failure
        [where len = 0 and idx = 1 and v = vec_123 and a = zero_alloc and el_size = 1]
      create_hole_precondition_failure
        [where len = 1 and idx = 4 and v = vec_123 and a = zero_alloc and el_size = 1]
      create_hole_precondition_failure
        [where len = 18446744073709551615 and idx = 1 and v = vec_123 and a = zero_alloc
           and el_size = 1]
    by simp
qed

section \<open>Insertion of nothing\<close>

text \<open>
  Claim C9. For a valid vector, a non-null value pointer and a non-zero element size,
  insert with \<open>len = 0\<close> returns \<open>TRUE\<close> and leaves the vector as it was, at every index.
  This includes an index past the size, where every insert with \<open>len > 0\<close> returns
  \<open>FALSE\<close> (and likewise leaves the vector as it was).
\<close>

theorem insert_nothing:
  assumes "vec2_impl_valid v" and "val \<noteq> None" and "el_size \<noteq> 0"
  shows "vec2_impl_insert a v idx val 0 el_size = Return True v \<and>
         (vec2_size v < idx \<longrightarrow>
            (\<forall>len. vec2_impl_insert a v idx val len el_size = Return (len = 0) v))"
  using assms
  by (auto simp: vec2_impl_insert_def vec2_create_hole_def word_gt_0)

text \<open>At index 7 of the three-element vector: nothing goes in, one element does not.\<close>

theorem insert_nothing_witness:
  "vec2_impl_valid vec_123 \<and> Some [9 :: byte] \<noteq> None \<and> (1 :: size_t) \<noteq> 0 \<and>
   vec2_size vec_123 < 7 \<and>
   vec2_impl_insert zero_alloc vec_123 7 (Some [9]) 0 1 = Return True vec_123 \<and>
   vec2_impl_insert zero_alloc vec_123 7 (Some [9]) 1 1 = Return False vec_123"
proof -
  have h1: "vec2_impl_valid vec_123" by (simp add: vec2_impl_valid_def vec_123_def)
  have h2: "Some [9 :: byte] \<noteq> None" and h3: "(1 :: size_t) \<noteq> 0" by simp_all
  have h4: "vec2_size vec_123 < 7" by (simp add: vec_123_def)
  from insert_nothing [OF h1 h2 h3, of zero_alloc 7] h4
  have "vec2_impl_insert zero_alloc vec_123 7 (Some [9]) 0 1 = Return True vec_123"
    and "vec2_impl_insert zero_alloc vec_123 7 (Some [9]) 1 1 = Return (1 = (0 :: size_t)) vec_123"
    by blast+
  then show ?thesis using h1 h4 by simp
qed

section \<open>Failure atomicity\<close>

text \<open>What each operation leaves behind when it returns \<open>FALSE\<close>.\<close>

lemma reserve_False:
  "vec2_reserve a v additional el_size = Return False v' \<Longrightarrow> v' = v"
  by (auto simp: vec2_reserve_def Let_def split: if_splits alloc_result.splits)

lemma reserve_retry_False:
  "reserve_retry a v addition len el_size = Return False v' \<Longrightarrow> v' = v"
proof (induction a v addition len el_size rule: reserve_retry.induct)
  case (1 a v addition len el_size)
  show ?case
  proof (cases "vec2_reserve a v (ucast addition) el_size")
    case (Return ok v1)
    show ?thesis
    proof (cases ok)
      case True
      with Return "1.prems" show ?thesis
        by (simp add: reserve_retry.simps [of a v addition])
    next
      case False
      with Return have v1: "v1 = v" by (auto dest: reserve_False)
      consider (exact) "len < ucast addition" "(ucast (drop_bit 1 addition) :: size_t) < len"
        | (give_up) "\<not> len < ucast addition" "(ucast (drop_bit 1 addition) :: size_t) < len"
        | (halve) "\<not> (ucast (drop_bit 1 addition) :: size_t) < len"
        by blast
      then show ?thesis
      proof cases
        case exact
        with Return False "1.prems"
        have "reserve_retry a v1 (ucast len) len el_size = Return False v'"
          by (simp add: reserve_retry.simps [of a v addition])
        with "1.IH"(1) [OF Return] False exact have "v' = v1" by simp
        with v1 show ?thesis by simp
      next
        case give_up
        with Return False "1.prems" have "v' = v1"
          by (simp add: reserve_retry.simps [of a v addition])
        with v1 show ?thesis by simp
      next
        case halve
        with Return False "1.prems"
        have "reserve_retry a v1 (drop_bit 1 addition) len el_size = Return False v'"
          by (simp add: reserve_retry.simps [of a v addition])
        with "1.IH"(2) [OF Return] False halve have "v' = v1" by simp
        with v1 show ?thesis by simp
      qed
    qed
  next
    case Undefined
    with "1.prems" show ?thesis by (simp add: reserve_retry.simps [of a v addition])
  next
    case Nonterminating
    with "1.prems" show ?thesis by (simp add: reserve_retry.simps [of a v addition])
  qed
qed

lemma place_not_False:
  "vec2_create_hole_place v idx len el_size \<noteq> Return False v'"
  by (auto simp: vec2_create_hole_place_def Let_def split: option.splits if_splits)

lemma create_hole_False:
  "vec2_create_hole a v idx len el_size = Return False v' \<Longrightarrow> v' = v"
  by (auto simp: vec2_create_hole_def vec2_create_hole_reserve_def place_not_False
      split: if_splits outcome.splits option.splits dest: reserve_retry_False)

lemma impl_create_hole_False:
  "vec2_impl_create_hole a v idx len el_size = Return False v' \<Longrightarrow> v' = v"
  by (auto simp: vec2_impl_create_hole_def split: if_splits outcome.splits dest: create_hole_False)

lemma impl_insert_False:
  "vec2_impl_insert a v idx val len el_size = Return False v' \<Longrightarrow> v' = v"
  by (auto simp: vec2_impl_insert_def split: if_splits outcome.splits option.splits dest: create_hole_False)

lemma impl_reserve_False:
  "vec2_impl_reserve a v additional el_size = Return False v' \<Longrightarrow> v' = v"
  by (auto simp: vec2_impl_reserve_def split: if_splits dest: reserve_False)

lemma impl_remove_False:
  "vec2_impl_remove v idx len el_size out = Return False (v', out') \<Longrightarrow> v' = v \<and> out' = out"
  by (auto simp: vec2_impl_remove_def vec2_remove_def Let_def split: if_splits option.splits)

lemma impl_swap_False:
  "vec2_impl_swap v first second el_size = Return False v' \<Longrightarrow> v' = v"
  by (auto simp: vec2_impl_swap_def split: if_splits option.splits prod.splits)

lemma impl_sort_False:
  "vec2_impl_sort q v cmpfn el_size = Return False v' \<Longrightarrow> v' = v"
  by (auto simp: vec2_impl_sort_def Let_def split: if_splits option.splits ptr.splits)

lemma impl_assign_False:
  "vec2_impl_assign v idx val len el_size = Return False v' \<Longrightarrow> v' = v"
  by (auto simp: vec2_impl_assign_def split: if_splits option.splits)


lemma impl_clear_False:
  "vec2_impl_clear v el_size \<noteq> Return False v'"
  by (auto simp: vec2_impl_clear_def vec2_clear_def split: if_splits)


lemma impl_init_False: "vec2_impl_init v \<noteq> Return False v'"
  by (simp add: vec2_impl_init_def)

lemma impl_shrink_False:
  assumes "vec2_impl_shrink a v el_size = Return False v'"
  shows "v' = v \<or>
         (vec2_start v \<noteq> 0 \<and> vec2_start v' = 0 \<and> vec2_data v' = Ptr 0 \<and>
          vec2_size v' = vec2_size v \<and> vec2_capacity v' = vec2_capacity v \<and>
          vec2_idx v' = vec2_idx v \<and>
          (vec2_wf v el_size \<longrightarrow>
             vec2_content v' el_size = vec2_content v el_size \<and> vec2_wf v' el_size))"
proof (cases "v' = v")
  case True
  then show ?thesis by simp
next
  case False
  define n where "n = unat (el_size * vec2_size v)"
  from assms False
  have start: "vec2_start v \<noteq> 0"
    by (auto simp: vec2_impl_shrink_def vec2_clear_def Let_def word_gt_0
        split: if_splits option.splits alloc_result.splits)
  from assms False obtain h m
    where mm: "memmove_heap (heap v) (vec2_mem v el_size) (Some (vec2_data v)) n = Some h"
      and mem: "vec2_mem v el_size = Some m"
      and v': "v' = v\<lparr>vec2_data := m, vec2_start := 0, heap := h\<rparr>"
      and null: "realloc_heap a (Some m) h
                   (unat ((if vec2_size v > VEC2_INITIAL_CAPACITY then vec2_size v
                           else VEC2_INITIAL_CAPACITY) * el_size)) = Alloc_null"
    by (auto simp: vec2_impl_shrink_def vec2_clear_def Let_def n_def
        split: if_splits option.splits alloc_result.splits)
  from mm mem obtain d where m: "m = Ptr d"
    by (auto simp: memmove_heap_def split: option.splits ptr.splits)
  with null have d: "d = 0"
    by (auto simp: realloc_heap_def split: option.splits nat.splits)
  have fields: "vec2_start v' = 0" "vec2_data v' = Ptr 0" "vec2_size v' = vec2_size v"
    "vec2_capacity v' = vec2_capacity v" "vec2_idx v' = vec2_idx v"
    by (simp_all add: v' m d)
  have "vec2_content v' el_size = vec2_content v el_size \<and> vec2_wf v' el_size"
    if wf: "vec2_wf v el_size"
  proof -
    have cap: "vec2_capacity v \<noteq> 0"
      using wf start by (auto simp: vec2_wf_def vec2_invariants_def unat_eq_0)
    then obtain p where data: "vec2_data v = Ptr p"
      using wf by (cases "vec2_data v") (auto simp: vec2_wf_def vec2_invariants_def)
    have n: "n = unat (vec2_size v) * unat el_size"
      using wf_unat_mult [OF wf, of "vec2_size v"] wf
      by (simp add: n_def mult.commute vec2_wf_def vec2_invariants_def word_le_nat_alt)
    from mm have bounds: "n \<le> length (heap v)" "p + n \<le> length (heap v)"
      and h: "h = take n (drop p (heap v)) @ drop n (heap v)"
      by (auto simp: memmove_heap_def mem m d data split: if_splits)
    have "vec2_content v' el_size = vec2_content v el_size"
      using bounds by (simp add: vec2_content_def v' m d data h n [symmetric])
    moreover have "length h = length (heap v)" using bounds by (simp add: h)
    then have "vec2_wf v' el_size"
      using wf cap by (simp add: vec2_wf_def vec2_invariants_def v' m d word_le_nat_alt)
    ultimately show ?thesis by simp
  qed
  with start fields show ?thesis by simp
qed


text \<open>
  Claim C2, as stated: every failing call leaves \<open>size\<close>, \<open>capacity\<close>, \<open>start\<close>, \<open>data\<close>
  and the contents as they were. It fails for shrink-to-fit: the vector below has one slot
  of front slack, the allocator refuses the smaller block, and the call returns \<open>FALSE\<close>
  after it has moved the live bytes to the base of the block and reset \<open>start\<close> and
  \<open>data\<close>.
\<close>

theorem shrink_failure_moves_data:
  "run alloc_9 id_qsort 1 VEC2_INITIALIZER
     [Op_reserve 9, Op_insert 0 (Some [1, 2]) 2, Op_remove 0 1 None] =
     Return True vec_front_removed \<and>
   vec2_impl_shrink alloc_9 vec_front_removed 1 =
     Return False
       (vec_front_removed\<lparr>vec2_start := 0, vec2_data := Ptr 0,
          heap := [2, 2, 0, 0, 0, 0, 0, 0, 0]\<rparr>) \<and>
   vec2_start vec_front_removed = 1 \<and> vec2_data vec_front_removed = Ptr 1"
  by code_simp

text \<open>
  Claim C2, amended. A call that returns \<open>FALSE\<close> leaves the vector exactly as it was,
  for every operation and every input, with one exception: shrink-to-fit on a vector
  with \<open>start > 0\<close> whose reallocation fails. That call leaves \<open>size\<close>, \<open>capacity\<close> and
  (on a well-formed vector) the logical content as they were and the vector well formed,
  with \<open>start = 0\<close> and \<open>data\<close> at the base of the block.
\<close>

theorem failure_leaves_content:
  assumes "step a q el_size v x = Return False v'"
  shows "v' = v \<or>
         (x = Op_shrink \<and> vec2_start v \<noteq> 0 \<and> vec2_start v' = 0 \<and> vec2_data v' = Ptr 0 \<and>
          vec2_size v' = vec2_size v \<and> vec2_capacity v' = vec2_capacity v \<and>
          vec2_idx v' = vec2_idx v \<and>
          (vec2_wf v el_size \<longrightarrow>
             vec2_content v' el_size = vec2_content v el_size \<and> vec2_wf v' el_size))"
proof (cases x)
  case Op_init
  with assms show ?thesis by (simp add: impl_init_False)
next
  case (Op_reserve additional)
  with assms show ?thesis by (auto dest: impl_reserve_False)
next
  case Op_shrink
  with assms have "vec2_impl_shrink a v el_size = Return False v'" by simp
  from impl_shrink_False [OF this] Op_shrink show ?thesis by simp
next
  case (Op_create_hole idx len)
  with assms show ?thesis by (auto dest: impl_create_hole_False)
next
  case (Op_insert idx val len)
  with assms show ?thesis by (auto dest: impl_insert_False)
next
  case (Op_remove idx len out)
  with assms show ?thesis
    by (auto simp: drop_out_def split: outcome.splits dest: impl_remove_False)
next
  case (Op_swap first second)
  with assms show ?thesis by (auto dest: impl_swap_False)
next
  case (Op_sort cmpfn)
  with assms show ?thesis by (auto dest: impl_sort_False)
next
  case (Op_assign idx val len)
  with assms show ?thesis by (auto dest: impl_assign_False)
next
  case Op_clear
  with assms show ?thesis by (simp add: impl_clear_False)
qed

text \<open>
  A failing insert past the end; an insert of nine elements that fails in the allocator
  at every retry (for 10 more slots, then for 9) and leaves the vector as it was; and the
  failing shrink of \<open>vec_front_removed\<close>, whose content is the same before and after.
\<close>

theorem failure_leaves_content_witness:
  "step zero_alloc id_qsort 1 vec_123 (Op_insert 7 (Some [9]) 1) = Return False vec_123 \<and>
   step alloc_9 id_qsort 1 vec_front_removed (Op_insert 1 (Some [1, 2, 3, 4, 5, 6, 7, 8, 9]) 9) =
     Return False vec_front_removed \<and>
   vec2_wf vec_front_removed 1 \<and>
   step alloc_9 id_qsort 1 vec_front_removed Op_shrink =
     Return False
       (vec_front_removed\<lparr>vec2_start := 0, vec2_data := Ptr 0,
          heap := [2, 2, 0, 0, 0, 0, 0, 0, 0]\<rparr>) \<and>
   vec2_content
     (vec_front_removed\<lparr>vec2_start := 0, vec2_data := Ptr 0,
        heap := [2, 2, 0, 0, 0, 0, 0, 0, 0]\<rparr>) 1 = vec2_content vec_front_removed 1"
proof -
  have s1: "step zero_alloc id_qsort 1 vec_123 (Op_insert 7 (Some [9]) 1) = Return False vec_123"
    by code_simp
  have s3: "step alloc_9 id_qsort 1 vec_front_removed
       (Op_insert 1 (Some [1, 2, 3, 4, 5, 6, 7, 8, 9]) 9) = Return False vec_front_removed"
    by code_simp
  have wf: "vec2_wf vec_front_removed 1"
    by (simp add: vec2_wf_def vec2_invariants_def vec_front_removed_def)
  have s2: "step alloc_9 id_qsort 1 vec_front_removed Op_shrink =
     Return False
       (vec_front_removed\<lparr>vec2_start := 0, vec2_data := Ptr 0,
          heap := [2, 2, 0, 0, 0, 0, 0, 0, 0]\<rparr>)"
    by code_simp
  from failure_leaves_content [OF s2] wf
  have "vec2_content
     (vec_front_removed\<lparr>vec2_start := 0, vec2_data := Ptr 0,
        heap := [2, 2, 0, 0, 0, 0, 0, 0, 0]\<rparr>) 1 = vec2_content vec_front_removed 1"
    by (auto simp: vec_front_removed_def)
  with s1 s3 wf s2 show ?thesis by simp
qed


section \<open>Insertion in the interior\<close>

text \<open>
  Claim C1 says that inserting a run \<open>v\<close> at index \<open>k\<close> into content \<open>X\<close> gives
  \<open>X[0:k] + v + X[k:]\<close>. The code does not: when the suffix must move forward, the second
  \<^verbatim>\<open>memmove\<close> of \<^verbatim>\<open>_vec2_create_hole\<close> copies \<open>len - shift_back\<close> elements instead of the
  \<open>size - idx\<close> elements of the suffix. Pushing 1, 2, 3 on the empty vector and inserting
  9 at index 1 gives 1, 9, 2, 0 and not 1, 9, 2, 3; with one slot of front slack,
  inserting 8, 9 at index 1 gives 1, 8, 9, 2, 0.
\<close>

theorem insert_interior_loses_suffix:
  "run zero_alloc id_qsort 1 VEC2_INITIALIZER [Op_insert 0 (Some [1, 2, 3]) 3] =
     Return True vec_123 \<and>
   vec2_content vec_123 1 = [1, 2, 3] \<and>
   vec2_impl_insert zero_alloc vec_123 1 (Some [9]) 1 1 =
     Return True (vec_123\<lparr>vec2_size := 4, heap := [1, 9, 2, 0, 0, 0, 0, 0]\<rparr>) \<and>
   vec2_content (vec_123\<lparr>vec2_size := 4, heap := [1, 9, 2, 0, 0, 0, 0, 0]\<rparr>) 1 =
     [1, 9, 2, 0] \<and>
   vec2_content vec_123_slack 1 = [1, 2, 3] \<and>
   vec2_impl_insert zero_alloc vec_123_slack 1 (Some [8, 9]) 2 1 =
     Return True
       (vec_123_slack\<lparr>vec2_size := 5, vec2_start := 0, vec2_data := Ptr 0,
          heap := [1, 8, 9, 2, 0, 0, 0, 0]\<rparr>)"
  by code_simp

text \<open>The equation of the claim fails at this input.\<close>

theorem insert_interior_loses_suffix_witness:
  "\<exists>v'. vec2_impl_insert zero_alloc vec_123 1 (Some [9]) 1 1 = Return True v' \<and>
        vec2_content v' 1 \<noteq>
          take 1 (vec2_content vec_123 1) @ [9] @ drop 1 (vec2_content vec_123 1)"
  using insert_interior_loses_suffix by simp

section \<open>Insert followed by remove\<close>

text \<open>
  Claim C8 says that insert at \<open>k\<close> followed by remove at \<open>k\<close> of the same length restores
  the content and hands back the inserted run. The run comes back, the content does
  not: after inserting 9 at index 1 of 1, 2, 3 and removing it again the content is
  1, 2, 0. The element was lost by the insert (the defect of claim C1).
\<close>

theorem insert_remove_loses_suffix:
  "vec2_content vec_123 1 = [1, 2, 3] \<and>
   vec2_impl_insert zero_alloc vec_123 1 (Some [9]) 1 1 =
     Return True (vec_123\<lparr>vec2_size := 4, heap := [1, 9, 2, 0, 0, 0, 0, 0]\<rparr>) \<and>
   vec2_impl_remove (vec_123\<lparr>vec2_size := 4, heap := [1, 9, 2, 0, 0, 0, 0, 0]\<rparr>) 1 1 1
       (Some [0]) =
     Return True (vec_123\<lparr>heap := [1, 2, 0, 0, 0, 0, 0, 0]\<rparr>, Some [9]) \<and>
   vec2_content (vec_123\<lparr>heap := [1, 2, 0, 0, 0, 0, 0, 0]\<rparr>) 1 = [1, 2, 0]"
  by code_simp

text \<open>The round trip hands back the run and does not restore the content.\<close>

theorem insert_remove_loses_suffix_witness:
  "\<exists>vi vr. vec2_impl_insert zero_alloc vec_123 1 (Some [9]) 1 1 = Return True vi \<and>
           vec2_impl_remove vi 1 1 1 (Some [0]) = Return True (vr, Some [9]) \<and>
           vec2_content vr 1 \<noteq> vec2_content vec_123 1"
  using insert_remove_loses_suffix by simp

section \<open>Shrink to fit\<close>

text \<open>
  Claim C3 says that a successful shrink-to-fit sets the capacity to
  \<open>max(size, INITIAL_CAPACITY)\<close>. The code reallocates the block to that many elements and
  then stores \<open>size\<close> in \<open>capacity\<close>: with two elements and capacity 64 the block gets 8
  slots and \<open>capacity\<close> becomes 2.
\<close>

theorem shrink_sets_capacity_to_size:
  "run zero_alloc id_qsort 1 VEC2_INITIALIZER [Op_reserve 64, Op_insert 0 (Some [1, 2]) 2] =
     Return True vec_64 \<and>
   vec2_impl_shrink zero_alloc vec_64 1 =
     Return True
       \<lparr>vec2_size = 2, vec2_capacity = 2, vec2_idx = 0, vec2_start = 0,
        vec2_data = Ptr 0, heap = [1, 2, 0, 0, 0, 0, 0, 0]\<rparr>"
  by code_simp

text \<open>The capacity left is neither the maximum the claim names nor at least the minimum.\<close>

theorem shrink_sets_capacity_to_size_witness:
  "\<exists>v'. vec2_impl_shrink zero_alloc vec_64 1 = Return True v' \<and>
        vec2_capacity v' \<noteq> max (vec2_size vec_64) VEC2_INITIAL_CAPACITY \<and>
        vec2_capacity v' < VEC2_INITIAL_CAPACITY"
  using shrink_sets_capacity_to_size by (simp add: vec_64_def VEC2_INITIAL_CAPACITY_def)

section \<open>The invariants over a sequence of calls\<close>

text \<open>
  Claim C4 says that after every call of every sequence from the empty vector
  \<open>size \<le> capacity\<close>, \<open>capacity = 0\<close> exactly when \<open>data\<close> is null, and
  \<open>start + size \<le> capacity\<close>. The third fails. Removing the last element leaves \<open>start\<close>
  where it was, and \<^verbatim>\<open>_vec2_create_hole\<close> places nothing when the vector is empty, so
  an insert into an emptied vector writes at the old \<open>start\<close>. In the first sequence every
  call returns \<open>TRUE\<close> and stays inside the block (which has 8 slots after the shrink,
  while \<open>capacity\<close> is 2), and it ends with \<open>start + size = 3 > capacity = 2\<close>. In the
  second the same insert runs past the end of the block.
\<close>

theorem insert_after_emptying_breaks_invariant:
  "run zero_alloc id_qsort 1 VEC2_INITIALIZER
     [Op_reserve 9, Op_insert 0 (Some [1, 2]) 2, Op_shrink, Op_remove 0 1 None,
      Op_remove 0 1 None, Op_insert 0 (Some [3, 4]) 2] =
     Return True
       \<lparr>vec2_size = 2, vec2_capacity = 2, vec2_idx = 0, vec2_start = 1,
        vec2_data = Ptr 1, heap = [1, 3, 4, 0, 0, 0, 0, 0]\<rparr> \<and>
   \<not> vec2_invariants
       \<lparr>vec2_size = 2, vec2_capacity = 2, vec2_idx = 0, vec2_start = 1,
        vec2_data = Ptr 1, heap = [1, 3, 4, 0, 0, 0, 0, 0]\<rparr> \<and>
   run zero_alloc id_qsort 1 VEC2_INITIALIZER
     [Op_insert 0 (Some [1, 2]) 2, Op_remove 0 1 None, Op_remove 0 1 None,
      Op_insert 0 (Some [1, 2, 3, 4, 5, 6, 7, 8]) 8] = Undefined"
  by code_simp

text \<open>The sequence starts in a state with the invariants and ends in one without.\<close>

theorem insert_after_emptying_breaks_invariant_witness:
  "vec2_invariants VEC2_INITIALIZER \<and>
   (\<exists>v'. run zero_alloc id_qsort 1 VEC2_INITIALIZER
           [Op_reserve 9, Op_insert 0 (Some [1, 2]) 2, Op_shrink, Op_remove 0 1 None,
            Op_remove 0 1 None, Op_insert 0 (Some [3, 4]) 2] = Return True v' \<and>
         unat (vec2_capacity v') < unat (vec2_start v') + unat (vec2_size v') \<and>
         \<not> vec2_invariants v')"
  using insert_after_emptying_breaks_invariant
  by (simp add: vec2_invariants_def VEC2_INITIALIZER_def)

end
